theory Spec2Isabelle
  imports Complex_Main "HOL-Library.Monad_Syntax" "HOL-Library.Sublist" "HOL-Library.Multiset"
    "HOL-Library.Log_Nat"
begin

section \<open>Conventions of the embedding\<close>

text \<open>
  The development embeds \<^verbatim>\<open>scorer.py\<close> and \<^verbatim>\<open>ashwam_types.py\<close>.

  \<^item> A Python \<^verbatim>\<open>float\<close> is an exact rational (\<^typ>\<open>rat\<close>) in the model of the
    functions: their arithmetic is exact. The rounding of IEEE doubles is modelled apart,
    for the evidence coverage rate, in the section on double-precision arithmetic. A Python
    \<^verbatim>\<open>int\<close> is an \<^typ>\<open>int\<close>; an index produced by \<^verbatim>\<open>enumerate\<close> is a \<^typ>\<open>nat\<close>.
  \<^item> A Python \<^verbatim>\<open>str\<close> is a \<^typ>\<open>string\<close>; a \<^typ>\<open>char\<close> stands for a code point
    below 256.
  \<^item> A function that can raise returns an \<open>option\<close>: \<open>None\<close> is a raised
    \<^verbatim>\<open>ZeroDivisionError\<close> or \<^verbatim>\<open>IndexError\<close>, the only two exceptions the
    arithmetic and the indexing of \<^verbatim>\<open>scorer.py\<close> can raise on well-typed input.
\<close>

subsection \<open>Operations of the Python runtime\<close>

text \<open>\<^verbatim>\<open>a / b\<close> on numbers: raises \<^verbatim>\<open>ZeroDivisionError\<close> when \<open>b\<close> is zero.\<close>

definition truediv :: "rat \<Rightarrow> rat \<Rightarrow> rat option" where
  "truediv a b = (if b = 0 then None else Some (a / b))"

text \<open>\<^verbatim>\<open>xs[i]\<close> for a non-negative index: raises \<^verbatim>\<open>IndexError\<close> out of range.\<close>

definition getitem :: "'a list \<Rightarrow> nat \<Rightarrow> 'a option" where
  "getitem xs i = (if i < length xs then Some (xs ! i) else None)"

text \<open>\<^verbatim>\<open>str.isspace\<close> on one character, for code points below 256.\<close>

definition isspace :: "char \<Rightarrow> bool" where
  "isspace c =
     (let n = (of_char c :: nat)
      in (9 \<le> n \<and> n \<le> 13) \<or> (28 \<le> n \<and> n \<le> 32) \<or> n = 133 \<or> n = 160)"

text \<open>\<^verbatim>\<open>str.lower\<close>: the upper-case letters below 256 are A-Z and U+00C0..U+00DE
  without the multiplication sign U+00D7; each lies 32 below its lower-case letter.\<close>

definition lower_char :: "char \<Rightarrow> char" where
  "lower_char c =
     (let n = (of_char c :: nat)
      in if (65 \<le> n \<and> n \<le> 90) \<or> (192 \<le> n \<and> n \<le> 222 \<and> n \<noteq> 215)
         then char_of (n + 32) else c)"

definition lower :: "string \<Rightarrow> string" where
  "lower s = map lower_char s"

text \<open>\<^verbatim>\<open>str.split()\<close> with no argument: the maximal runs of non-whitespace
  characters, in order. \<open>cur\<close> is the run being read.\<close>

fun split_from :: "string \<Rightarrow> string \<Rightarrow> string list" where
  "split_from cur [] = (if cur = [] then [] else [cur])"
| "split_from cur (c # cs) =
     (if isspace c
      then (if cur = [] then split_from [] cs else cur # split_from [] cs)
      else split_from (cur @ [c]) cs)"

definition split :: "string \<Rightarrow> string list" where
  "split s = split_from [] s"

text \<open>\<^verbatim>\<open>sub in text\<close> on strings: \<open>sub\<close> starts at some position of \<open>text\<close>.\<close>

fun str_contains :: "string \<Rightarrow> string \<Rightarrow> bool" where
  "str_contains [] sub = (sub = [])"
| "str_contains (c # cs) sub = (prefix sub (c # cs) \<or> str_contains cs sub)"

subsection \<open>\<^verbatim>\<open>ashwam_types.py\<close>\<close>

record SemanticObject =
  domain :: string
  evidence_span :: string
  polarity :: string
  intensity_bucket :: string
  arousal_bucket :: string
  time_bucket :: string

text \<open>\<^verbatim>\<open>SemanticObject.to_dict\<close>: a dict as the list of its items, in insertion order.\<close>

definition to_dict :: "SemanticObject \<Rightarrow> (string \<times> string) list" where
  "to_dict self =
     [(''domain'', domain self),
      (''evidence_span'', evidence_span self),
      (''polarity'', polarity self),
      (''time_bucket'', time_bucket self)] @
     (if domain self = ''emotion''
      then [(''arousal_bucket'', arousal_bucket self)]
      else [(''intensity_bucket'', intensity_bucket self)])"

subsection \<open>\<^verbatim>\<open>calculate_jaccard_similarity\<close>\<close>

definition calculate_jaccard_similarity :: "string \<Rightarrow> string \<Rightarrow> rat option" where
  "calculate_jaccard_similarity span1 span2 =
     (let set1 = set (split (lower span1));
          set2 = set (split (lower span2))
      in if set1 = {} \<and> set2 = {} then Some 1
         else
           (let intersection = card (set1 \<inter> set2);
                union = card (set1 \<union> set2)
            in if union \<noteq> 0 then truediv (of_nat intersection) (of_nat union) else Some 0))"

subsection \<open>\<^verbatim>\<open>Scorer._match_objects\<close>\<close>

text \<open>An entry of \<^verbatim>\<open>potential_matches\<close>: \<open>(jaccard_score, pred_idx, gold_idx)\<close>.\<close>

type_synonym potential_match = "rat \<times> nat \<times> nat"

type_synonym matched_pair = "SemanticObject \<times> SemanticObject"

text \<open>The inner loop over \<^verbatim>\<open>enumerate(unmatched_predicted)\<close>, for the gold object
  \<open>gold_obj\<close> at index \<open>i\<close>; \<open>pm\<close> is \<^verbatim>\<open>potential_matches\<close> so far.\<close>

fun potential_matches_inner ::
  "rat \<Rightarrow> nat \<Rightarrow> SemanticObject \<Rightarrow> (nat \<times> SemanticObject) list \<Rightarrow>
   potential_match list \<Rightarrow> potential_match list option" where
  "potential_matches_inner jaccard_threshold i gold_obj [] pm = Some pm"
| "potential_matches_inner jaccard_threshold i gold_obj ((j, pred_obj) # rest) pm =
     (if domain gold_obj = domain pred_obj
      then do {
        jaccard \<leftarrow> calculate_jaccard_similarity (evidence_span gold_obj) (evidence_span pred_obj);
        potential_matches_inner jaccard_threshold i gold_obj rest
          (if jaccard \<ge> jaccard_threshold then pm @ [(jaccard, j, i)] else pm)
      }
      else potential_matches_inner jaccard_threshold i gold_obj rest pm)"

text \<open>The outer loop over \<^verbatim>\<open>enumerate(unmatched_gold)\<close>.\<close>

fun potential_matches_outer ::
  "rat \<Rightarrow> (nat \<times> SemanticObject) list \<Rightarrow> (nat \<times> SemanticObject) list \<Rightarrow>
   potential_match list \<Rightarrow> potential_match list option" where
  "potential_matches_outer jaccard_threshold [] preds pm = Some pm"
| "potential_matches_outer jaccard_threshold ((i, gold_obj) # rest) preds pm =
     do {
       pm' \<leftarrow> potential_matches_inner jaccard_threshold i gold_obj preds pm;
       potential_matches_outer jaccard_threshold rest preds pm'
     }"

text \<open>\<^verbatim>\<open>potential_matches.sort(key=lambda x: x[0], reverse=True)\<close>: Python's sort is
  stable, and with \<^verbatim>\<open>reverse=True\<close> entries of equal key keep their original order.
  That is the stable ascending sort on the negated key.\<close>

definition sort_reverse :: "potential_match list \<Rightarrow> potential_match list" where
  "sort_reverse pm = sort_key (\<lambda>x. - fst x) pm"

text \<open>The greedy loop over the sorted \<^verbatim>\<open>potential_matches\<close>. The state is
  \<open>(matched_pairs, matched_predicted_indices, matched_gold_indices)\<close>.\<close>

type_synonym match_state = "matched_pair list \<times> nat set \<times> nat set"

fun greedy_loop ::
  "SemanticObject list \<Rightarrow> SemanticObject list \<Rightarrow> potential_match list \<Rightarrow>
   match_state \<Rightarrow> match_state option" where
  "greedy_loop unmatched_gold unmatched_predicted [] st = Some st"
| "greedy_loop unmatched_gold unmatched_predicted ((jaccard, pred_idx, gold_idx) # rest)
     (matched_pairs, matched_predicted_indices, matched_gold_indices) =
     (if pred_idx \<notin> matched_predicted_indices \<and> gold_idx \<notin> matched_gold_indices
      then do {
        g \<leftarrow> getitem unmatched_gold gold_idx;
        p \<leftarrow> getitem unmatched_predicted pred_idx;
        greedy_loop unmatched_gold unmatched_predicted rest
          (matched_pairs @ [(g, p)],
           insert pred_idx matched_predicted_indices,
           insert gold_idx matched_gold_indices)
      }
      else greedy_loop unmatched_gold unmatched_predicted rest
          (matched_pairs, matched_predicted_indices, matched_gold_indices))"

text \<open>\<^verbatim>\<open>[obj for i, obj in enumerate(objs) if i not in matched]\<close>.\<close>

definition unmatched :: "SemanticObject list \<Rightarrow> nat set \<Rightarrow> SemanticObject list" where
  "unmatched objs matched = map snd (filter (\<lambda>(i, obj). i \<notin> matched) (enumerate 0 objs))"

text \<open>\<^verbatim>\<open>_match_objects\<close>; \<^verbatim>\<open>self.jaccard_threshold\<close> is the first argument. The
  result is \<open>(matched_pairs, fps, fns)\<close>.\<close>

definition match_objects ::
  "rat \<Rightarrow> SemanticObject list \<Rightarrow> SemanticObject list \<Rightarrow>
   (matched_pair list \<times> SemanticObject list \<times> SemanticObject list) option" where
  "match_objects jaccard_threshold gold_objects predicted_objects =
     (let unmatched_predicted = predicted_objects;
          unmatched_gold = gold_objects
      in do {
        potential_matches \<leftarrow>
          potential_matches_outer jaccard_threshold
            (enumerate 0 unmatched_gold) (enumerate 0 unmatched_predicted) [];
        (matched_pairs, matched_predicted_indices, matched_gold_indices) \<leftarrow>
          greedy_loop unmatched_gold unmatched_predicted (sort_reverse potential_matches)
            ([], {}, {});
        Some (matched_pairs,
              unmatched unmatched_predicted matched_predicted_indices,
              unmatched unmatched_gold matched_gold_indices)
      })"

subsection \<open>\<^verbatim>\<open>Scorer.score_journal\<close>\<close>

text \<open>The dict \<^verbatim>\<open>score_journal\<close> returns, one field per key.\<close>

record journal_score =
  tp :: int
  fp :: int
  fn :: int
  precision :: rat
  recall :: rat
  f1 :: rat
  polarity_accuracy :: rat
  bucket_accuracy :: rat
  evidence_coverage_rate :: rat
  matched_pairs :: "((string \<times> string) list \<times> (string \<times> string) list) list"
  false_positives :: "(string \<times> string) list list"
  false_negatives :: "(string \<times> string) list list"

text \<open>The three counting loops of \<^verbatim>\<open>score_journal\<close>: each adds one per element that
  passes its test.\<close>

definition correct_polarity_count :: "matched_pair list \<Rightarrow> int" where
  "correct_polarity_count pairs =
     int (length (filter (\<lambda>(gold_obj, pred_obj). polarity gold_obj = polarity pred_obj) pairs))"

definition correct_bucket_count :: "matched_pair list \<Rightarrow> int" where
  "correct_bucket_count pairs =
     int (length (filter (\<lambda>(gold_obj, pred_obj).
       if domain gold_obj = ''emotion''
       then arousal_bucket gold_obj = arousal_bucket pred_obj
       else intensity_bucket gold_obj = intensity_bucket pred_obj) pairs))"

definition valid_evidence_spans :: "string \<Rightarrow> SemanticObject list \<Rightarrow> int" where
  "valid_evidence_spans journal_text predicted_objects =
     int (length (filter (\<lambda>pred_obj. str_contains journal_text (evidence_span pred_obj))
       predicted_objects))"

definition score_journal ::
  "rat \<Rightarrow> string \<Rightarrow> SemanticObject list \<Rightarrow> SemanticObject list \<Rightarrow> journal_score option" where
  "score_journal jaccard_threshold journal_text gold_objects predicted_objects =
     do {
       (pairs, fps, fns) \<leftarrow> match_objects jaccard_threshold gold_objects predicted_objects;
       let tp_count = int (length pairs);
       let fp_count = int (length fps);
       let fn_count = int (length fns);
       precision \<leftarrow>
         (if tp_count + fp_count > 0
          then truediv (of_int tp_count) (of_int (tp_count + fp_count)) else Some 0);
       recall \<leftarrow>
         (if tp_count + fn_count > 0
          then truediv (of_int tp_count) (of_int (tp_count + fn_count)) else Some 0);
       f1 \<leftarrow>
         (if precision + recall > 0
          then truediv (2 * precision * recall) (precision + recall) else Some 0);
       polarity_accuracy \<leftarrow>
         (if tp_count > 0
          then truediv (of_int (correct_polarity_count pairs)) (of_int tp_count) else Some 0);
       bucket_accuracy \<leftarrow>
         (if tp_count > 0
          then truediv (of_int (correct_bucket_count pairs)) (of_int tp_count) else Some 0);
       evidence_coverage_rate \<leftarrow>
         (if int (length predicted_objects) > 0
          then truediv (of_int (valid_evidence_spans journal_text predicted_objects))
                 (of_int (int (length predicted_objects)))
          else Some 0);
       Some \<lparr>tp = tp_count, fp = fp_count, fn = fn_count,
             precision = precision, recall = recall, f1 = f1,
             polarity_accuracy = polarity_accuracy, bucket_accuracy = bucket_accuracy,
             evidence_coverage_rate = evidence_coverage_rate,
             matched_pairs = map (\<lambda>(g, p). (to_dict g, to_dict p)) pairs,
             false_positives = map to_dict fps,
             false_negatives = map to_dict fns\<rparr>
     }"

subsection \<open>\<^verbatim>\<open>Scorer.overall_scores\<close>\<close>

record overall_score =
  overall_precision :: rat
  overall_recall :: rat
  overall_f1 :: rat
  overall_polarity_accuracy :: rat
  overall_bucket_accuracy :: rat
  overall_evidence_coverage_rate :: rat

definition overall_scores :: "journal_score list \<Rightarrow> overall_score option" where
  "overall_scores all_journal_scores =
     (let total_tp = sum_list (map tp all_journal_scores);
          total_fp = sum_list (map fp all_journal_scores);
          total_fn = sum_list (map fn all_journal_scores)
      in do {
        overall_precision \<leftarrow>
          (if total_tp + total_fp > 0
           then truediv (of_int total_tp) (of_int (total_tp + total_fp)) else Some 0);
        overall_recall \<leftarrow>
          (if total_tp + total_fn > 0
           then truediv (of_int total_tp) (of_int (total_tp + total_fn)) else Some 0);
        overall_f1 \<leftarrow>
          (if overall_precision + overall_recall > 0
           then truediv (2 * overall_precision * overall_recall)
                  (overall_precision + overall_recall)
           else Some 0);
        let total_polarity_correct =
          sum_list (map (\<lambda>s. polarity_accuracy s * of_int (tp s)) all_journal_scores);
        overall_polarity_accuracy \<leftarrow>
          (if total_tp > 0 then truediv total_polarity_correct (of_int total_tp) else Some 0);
        let total_bucket_correct =
          sum_list (map (\<lambda>s. bucket_accuracy s * of_int (tp s)) all_journal_scores);
        overall_bucket_accuracy \<leftarrow>
          (if total_tp > 0 then truediv total_bucket_correct (of_int total_tp) else Some 0);
        let total_valid_evidence_spans =
          sum_list (map (\<lambda>s. evidence_coverage_rate s * of_int (tp s + fp s)) all_journal_scores);
        let total_predicted_objects = sum_list (map (\<lambda>s. tp s + fp s) all_journal_scores);
        overall_evidence_coverage_rate \<leftarrow>
          (if total_predicted_objects > 0
           then truediv total_valid_evidence_spans (of_int total_predicted_objects)
           else Some 0);
        Some \<lparr>overall_precision = overall_precision, overall_recall = overall_recall,
              overall_f1 = overall_f1,
              overall_polarity_accuracy = overall_polarity_accuracy,
              overall_bucket_accuracy = overall_bucket_accuracy,
              overall_evidence_coverage_rate = overall_evidence_coverage_rate\<rparr>
      })"

subsection \<open>The scoring loop of \<^verbatim>\<open>main\<close>\<close>

text \<open>A document is \<open>(journal_text, gold_objs, predicted_objs)\<close>.\<close>

type_synonym document = "string \<times> SemanticObject list \<times> SemanticObject list"

text \<open>\<^verbatim>\<open>main\<close> scores every document with one scorer, in order, and appends each
  score to \<^verbatim>\<open>all_journal_scores\<close>; the first exception ends the run.\<close>

fun score_all :: "rat \<Rightarrow> document list \<Rightarrow> journal_score list option" where
  "score_all jaccard_threshold [] = Some []"
| "score_all jaccard_threshold ((journal_text, gold_objs, predicted_objs) # docs) =
     do {
       score \<leftarrow> score_journal jaccard_threshold journal_text gold_objs predicted_objs;
       all_journal_scores \<leftarrow> score_all jaccard_threshold docs;
       Some (score # all_journal_scores)
     }"

section \<open>The specification's descriptions\<close>

text \<open>The definitions of this section follow the words of the specification, not the
  code; the theorems below compare the code with them.\<close>

text \<open>The specification's \<open>similarity\<close> (component SimilarityMeasure): the Jaccard index
  of the two sets of case-folded, whitespace-separated tokens, and 1 when both are empty.\<close>

definition tokens :: "string \<Rightarrow> string set" where
  "tokens a = set (split (lower a))"

definition similarity :: "string \<Rightarrow> string \<Rightarrow> rat" where
  "similarity a b =
     (if tokens a = {} \<and> tokens b = {} then 1
      else of_nat (card (tokens a \<inter> tokens b)) / of_nat (card (tokens a \<union> tokens b)))"

text \<open>Steps 1 and 2 of the Matcher: every pair (gold index \<open>i\<close>, predicted index \<open>j\<close>)
  with equal domains and similarity at least the threshold, with its weight; gold index in
  the outer enumeration, predicted index in the inner one.\<close>

definition candidate_at ::
  "rat \<Rightarrow> SemanticObject list \<Rightarrow> SemanticObject list \<Rightarrow> nat \<Rightarrow> nat \<Rightarrow> potential_match list" where
  "candidate_at threshold gold predicted i j =
     (if domain (gold ! i) = domain (predicted ! j) \<and>
         similarity (evidence_span (gold ! i)) (evidence_span (predicted ! j)) \<ge> threshold
      then [(similarity (evidence_span (gold ! i)) (evidence_span (predicted ! j)), j, i)]
      else [])"

definition candidate_pairs ::
  "rat \<Rightarrow> SemanticObject list \<Rightarrow> SemanticObject list \<Rightarrow> potential_match list" where
  "candidate_pairs threshold gold predicted =
     concat (map (\<lambda>i. concat (map (\<lambda>j. candidate_at threshold gold predicted i j)
       [0..<length predicted])) [0..<length gold])"

definition weight :: "potential_match \<Rightarrow> rat" where
  "weight c = fst c"

definition pred_index :: "potential_match \<Rightarrow> nat" where
  "pred_index c = fst (snd c)"

definition gold_index :: "potential_match \<Rightarrow> nat" where
  "gold_index c = snd (snd c)"

text \<open>Candidate-generation order: by gold index, then by predicted index.\<close>

definition generated_before :: "potential_match \<Rightarrow> potential_match \<Rightarrow> bool" where
  "generated_before a b =
     (gold_index a < gold_index b \<or> (gold_index a = gold_index b \<and> pred_index a < pred_index b))"

text \<open>Step 4 of the Matcher: walk the list; commit a candidate when no candidate committed
  before it has its gold index or its predicted index. \<open>committed\<close> is the list of the
  candidates committed so far, in commit order.\<close>

fun commit_walk :: "potential_match list \<Rightarrow> potential_match list \<Rightarrow> potential_match list" where
  "commit_walk committed [] = committed"
| "commit_walk committed (c # cs) =
     (if list_all (\<lambda>d. pred_index d \<noteq> pred_index c \<and> gold_index d \<noteq> gold_index c) committed
      then commit_walk (committed @ [c]) cs
      else commit_walk committed cs)"

text \<open>Step 5 of the Matcher: the objects whose index no committed candidate consumed.\<close>

definition never_consumed :: "SemanticObject list \<Rightarrow> nat list \<Rightarrow> SemanticObject list" where
  "never_consumed objs consumed = map (\<lambda>k. objs ! k) (filter (\<lambda>k. k \<notin> set consumed) [0..<length objs])"

text \<open>The Matcher of the specification, steps 4 and 5 on the sorted candidates \<open>ordered\<close>.\<close>

definition matcher_result ::
  "SemanticObject list \<Rightarrow> SemanticObject list \<Rightarrow> potential_match list \<Rightarrow>
   matched_pair list \<times> SemanticObject list \<times> SemanticObject list" where
  "matcher_result gold predicted ordered =
     (let committed = commit_walk [] ordered
      in (map (\<lambda>c. (gold ! gold_index c, predicted ! pred_index c)) committed,
          never_consumed predicted (map pred_index committed),
          never_consumed gold (map gold_index committed)))"

text \<open>The raw-count computation of the corpus evidence coverage rate: the number of
  predicted objects whose span occurs in their document's text, over the number of
  predicted objects, and 0 when there is none.\<close>

definition raw_evidence_coverage_rate :: "document list \<Rightarrow> rat" where
  "raw_evidence_coverage_rate docs =
     (let valid = sum_list (map (\<lambda>(journal_text, gold, predicted).
                     valid_evidence_spans journal_text predicted) docs);
          total = sum_list (map (\<lambda>(journal_text, gold, predicted). int (length predicted)) docs)
      in if total = 0 then 0 else of_int valid / of_int total)"

section \<open>Auxiliary definitions\<close>

text \<open>What one run of the inner loop appends to \<^verbatim>\<open>potential_matches\<close>, for the gold
  object \<open>g\<close> at index \<open>i\<close>.\<close>

definition row ::
  "rat \<Rightarrow> nat \<Rightarrow> SemanticObject \<Rightarrow> (nat \<times> SemanticObject) list \<Rightarrow> potential_match list" where
  "row thr i g ps = concat (map (\<lambda>(j, p).
      if domain g = domain p \<and> similarity (evidence_span g) (evidence_span p) \<ge> thr
      then [(similarity (evidence_span g) (evidence_span p), j, i)] else []) ps)"

text \<open>The value of \<^verbatim>\<open>a / b if b > 0 else 0.0\<close>.\<close>

definition ratio_or_zero :: "rat \<Rightarrow> rat \<Rightarrow> rat" where
  "ratio_or_zero a b = (if b > 0 then a / b else 0)"

section \<open>Example inputs\<close>

text \<open>Two score records with \<open>tp = 1\<close>, polarity accuracy 1 and \<open>tp = 3\<close>, polarity
  accuracy 0.\<close>

definition doc_a :: journal_score where
  "doc_a = \<lparr>tp = 1, fp = 0, fn = 0, precision = 1, recall = 1, f1 = 1,
            polarity_accuracy = 1, bucket_accuracy = 1, evidence_coverage_rate = 1,
            matched_pairs = [], false_positives = [], false_negatives = []\<rparr>"

definition doc_b :: journal_score where
  "doc_b = \<lparr>tp = 3, fp = 0, fn = 0, precision = 1, recall = 1, f1 = 1,
            polarity_accuracy = 0, bucket_accuracy = 0, evidence_coverage_rate = 1,
            matched_pairs = [], false_positives = [], false_negatives = []\<rparr>"

text \<open>A gold symptom, a predicted symptom whose span shares two of its three tokens, a
  gold emotion with the predicted symptom's span, and a document text.\<close>

definition gold_pain :: SemanticObject where
  "gold_pain = \<lparr>domain = ''symptom'', evidence_span = ''sharp stomach pain'',
     polarity = ''present'', intensity_bucket = ''high'', arousal_bucket = ''unknown'',
     time_bucket = ''today''\<rparr>"

definition pred_pain :: SemanticObject where
  "pred_pain = \<lparr>domain = ''symptom'', evidence_span = ''stomach pain'',
     polarity = ''present'', intensity_bucket = ''high'', arousal_bucket = ''unknown'',
     time_bucket = ''today''\<rparr>"

definition gold_mood :: SemanticObject where
  "gold_mood = \<lparr>domain = ''emotion'', evidence_span = ''stomach pain'',
     polarity = ''present'', intensity_bucket = ''unknown'', arousal_bucket = ''high'',
     time_bucket = ''today''\<rparr>"

definition journal :: string where
  "journal = ''I had sharp stomach pain today''"

text \<open>A gold and a predicted symptom with the same span, which does not occur in
  \<open>journal\<close>, and a predicted symptom with the empty span.\<close>

definition gold_head :: SemanticObject where
  "gold_head = \<lparr>domain = ''symptom'', evidence_span = ''severe headache'',
     polarity = ''present'', intensity_bucket = ''high'', arousal_bucket = ''unknown'',
     time_bucket = ''today''\<rparr>"

definition pred_head :: SemanticObject where
  "pred_head = \<lparr>domain = ''symptom'', evidence_span = ''severe headache'',
     polarity = ''absent'', intensity_bucket = ''low'', arousal_bucket = ''unknown'',
     time_bucket = ''today''\<rparr>"

definition pred_blank :: SemanticObject where
  "pred_blank = \<lparr>domain = ''symptom'', evidence_span = '''',
     polarity = ''present'', intensity_bucket = ''unknown'', arousal_bucket = ''unknown'',
     time_bucket = ''unknown''\<rparr>"

section \<open>Double-precision arithmetic\<close>

text \<open>
  The definitions above compute with exact rationals. This section models the rounding of
  the doubles that CPython computes with, for the evidence coverage rate only.

  A finite double is a rational \<open>m * 2 ^ e\<close> with \<open>\<bar>m\<bar> < 2 ^ 53\<close>. \<open>double x\<close> is \<open>x\<close>
  rounded to 53 significant bits, to the nearest such number and to the even significand
  on a tie (IEEE 754 round-to-nearest-even). The exponent is unbounded: overflow and
  subnormal numbers are left out, which ratios and sums of list lengths do not reach.
\<close>

definition pow2 :: "int \<Rightarrow> rat" where
  "pow2 e = (if e \<ge> 0 then 2 ^ nat e else 1 / 2 ^ nat (- e))"

text \<open>For \<open>x > 0\<close>, the exponent \<open>e\<close> with \<open>2 ^ e \<le> x < 2 ^ (e + 1)\<close>.\<close>

definition floor_log2 :: "rat \<Rightarrow> int" where
  "floor_log2 x =
     (let (p, q) = quotient_of x;
          e = bitlen p - bitlen q
      in if pow2 e \<le> x then e else e - 1)"

definition round_half_even :: "rat \<Rightarrow> int" where
  "round_half_even q =
     (let f = \<lfloor>q\<rfloor>; d = q - of_int f
      in if d < 1 / 2 then f
         else if d > 1 / 2 then f + 1
         else if even f then f else f + 1)"

definition double :: "rat \<Rightarrow> rat" where
  "double x =
     (if x = 0 then 0
      else
        (let ulp = pow2 (floor_log2 \<bar>x\<bar> - 52)
         in sgn x * of_int (round_half_even (\<bar>x\<bar> / ulp)) * ulp))"

text \<open>\<^verbatim>\<open>sum\<close> of floats: it starts from the integer 0 and adds the items from left to
  right, rounding each addition. (From CPython 3.12 on, \<^verbatim>\<open>sum\<close> also carries a correction
  for the rounding errors of the additions; the results agree whenever every addition is
  exact, as in the example below.)\<close>

definition float_sum :: "rat list \<Rightarrow> rat" where
  "float_sum xs = foldl (\<lambda>acc x. double (acc + x)) 0 xs"

text \<open>Lines 95 to 99 of \<^verbatim>\<open>score_journal\<close>: the quotient of two integers is the correctly
  rounded double.\<close>

definition evidence_coverage_rate_double :: "string \<Rightarrow> SemanticObject list \<Rightarrow> rat" where
  "evidence_coverage_rate_double journal_text predicted_objects =
     (if int (length predicted_objects) > 0
      then double (of_int (valid_evidence_spans journal_text predicted_objects) /
                   of_int (int (length predicted_objects)))
      else 0)"

text \<open>Lines 134 to 136 of \<^verbatim>\<open>overall_scores\<close>, on the entries
  \<open>(evidence_coverage_rate, tp, fp)\<close> of the scores: an integer operand of a float
  operation is converted to a double first, and each product and quotient is rounded.\<close>

definition overall_evidence_coverage_rate_double :: "(rat \<times> int \<times> int) list \<Rightarrow> rat" where
  "overall_evidence_coverage_rate_double entries =
     (let total_valid_evidence_spans =
            float_sum (map (\<lambda>(rate, tp_count, fp_count).
              double (rate * double (of_int (tp_count + fp_count)))) entries);
          total_predicted_objects =
            sum_list (map (\<lambda>(rate, tp_count, fp_count). tp_count + fp_count) entries)
      in if total_predicted_objects > 0
         then double (total_valid_evidence_spans / double (of_int total_predicted_objects))
         else 0)"

text \<open>The scoring loop of \<^verbatim>\<open>main\<close>, keeping of each score the three entries that lines
  134 to 136 read: the rate as a double, and the integers \<open>tp\<close> and \<open>fp\<close>.\<close>

fun coverage_entries :: "rat \<Rightarrow> document list \<Rightarrow> (rat \<times> int \<times> int) list option" where
  "coverage_entries jaccard_threshold [] = Some []"
| "coverage_entries jaccard_threshold ((journal_text, gold_objs, predicted_objs) # docs) =
     do {
       score \<leftarrow> score_journal jaccard_threshold journal_text gold_objs predicted_objs;
       entries \<leftarrow> coverage_entries jaccard_threshold docs;
       Some ((evidence_coverage_rate_double journal_text predicted_objs, tp score, fp score)
             # entries)
     }"

text \<open>The raw-count computation in doubles: one division of the two integer totals.\<close>

definition raw_evidence_coverage_rate_double :: "document list \<Rightarrow> rat" where
  "raw_evidence_coverage_rate_double docs =
     (let valid = sum_list (map (\<lambda>(journal_text, gold, predicted).
                     valid_evidence_spans journal_text predicted) docs);
          total = sum_list (map (\<lambda>(journal_text, gold, predicted). int (length predicted)) docs)
      in if total = 0 then 0 else double (of_int valid / of_int total))"

text \<open>Two documents: 22 predictions of which 15 have their span in the text, and one
  prediction whose span is not in the text.\<close>

definition rounding_docs :: "document list" where
  "rounding_docs =
     [(journal, [], replicate 15 pred_pain @ replicate 7 pred_head),
      (journal, [], [pred_head])]"

section \<open>The runtime operations\<close>

lemma str_contains_iff: "str_contains t s \<longleftrightarrow> (\<exists>ps ss. t = ps @ s @ ss)"
proof (induction t)
  case Nil
  then show ?case by auto
next
  case (Cons c cs)
  show ?case using Cons sublist_Cons_right[of s c cs] unfolding sublist_def by simp
qed

section \<open>The code against the specification's Matcher\<close>

lemma jaccard_is_similarity:
  "calculate_jaccard_similarity a b = Some (similarity a b)"
  by (auto simp: calculate_jaccard_similarity_def similarity_def tokens_def Let_def truediv_def)

lemma inner_eq: "potential_matches_inner thr i g ps pm = Some (pm @ row thr i g ps)"
  by (induction ps arbitrary: pm) (auto simp: row_def jaccard_is_similarity)

lemma outer_eq:
  "potential_matches_outer thr gs ps pm = Some (pm @ concat (map (\<lambda>(i, g). row thr i g ps) gs))"
  by (induction gs arbitrary: pm) (auto simp: inner_eq)

lemma enumerate_eq_map: "enumerate 0 xs = map (\<lambda>i. (i, xs ! i)) [0..<length xs]"
  by (rule nth_equalityI) (simp_all add: nth_enumerate_eq)

lemma row_enumerate:
  "row thr i (gold ! i) (enumerate 0 predicted) =
    concat (map (\<lambda>j. candidate_at thr gold predicted i j) [0..<length predicted])"
  by (simp add: row_def enumerate_eq_map comp_def candidate_at_def)

lemma potential_matches_eq:
  "potential_matches_outer thr (enumerate 0 gold) (enumerate 0 predicted) [] =
     Some (candidate_pairs thr gold predicted)"
  by (simp add: outer_eq candidate_pairs_def row_enumerate)
     (simp add: enumerate_eq_map comp_def row_enumerate[unfolded enumerate_eq_map])

lemma greedy_eq:
  "list_all (\<lambda>c. pred_index c < length up \<and> gold_index c < length ug) cs \<Longrightarrow>
   greedy_loop ug up cs (map (\<lambda>c. (ug ! gold_index c, up ! pred_index c)) d, set (map pred_index d), set (map gold_index d)) =
   Some (map (\<lambda>c. (ug ! gold_index c, up ! pred_index c)) (commit_walk d cs),
         set (map pred_index (commit_walk d cs)),
         set (map gold_index (commit_walk d cs)))"
proof (induction cs arbitrary: d)
  case Nil
  then show ?case by simp
next
  case (Cons c cs)
  obtain w j i where c: "c = (w, j, i)" by (cases c) auto
  have rng: "j < length up" "i < length ug" and rest: "list_all (\<lambda>c. pred_index c < length up \<and> gold_index c < length ug) cs"
    using Cons.prems by (simp_all add: c pred_index_def gold_index_def)
  have cond: "(j \<notin> set (map pred_index d) \<and> i \<notin> set (map gold_index d)) \<longleftrightarrow>
     list_all (\<lambda>d. pred_index d \<noteq> pred_index c \<and> gold_index d \<noteq> gold_index c) d"
    by (auto simp: c pred_index_def gold_index_def list_all_iff)
  show ?case
  proof (cases "list_all (\<lambda>d. pred_index d \<noteq> pred_index c \<and> gold_index d \<noteq> gold_index c) d")
    case True
    have "greedy_loop ug up (c # cs) (map (\<lambda>c. (ug ! gold_index c, up ! pred_index c)) d, set (map pred_index d), set (map gold_index d))
        = greedy_loop ug up cs (map (\<lambda>c. (ug ! gold_index c, up ! pred_index c)) (d @ [c]), set (map pred_index (d @ [c])), set (map gold_index (d @ [c])))"
      using True cond rng by (simp add: c getitem_def pred_index_def gold_index_def)
    also have "\<dots> = Some (map (\<lambda>c. (ug ! gold_index c, up ! pred_index c)) (commit_walk (d @ [c]) cs),
         set (map pred_index (commit_walk (d @ [c]) cs)),
         set (map gold_index (commit_walk (d @ [c]) cs)))"
      by (rule Cons.IH[OF rest])
    finally show ?thesis using True by simp
  next
    case False
    have "greedy_loop ug up (c # cs) (map (\<lambda>c. (ug ! gold_index c, up ! pred_index c)) d, set (map pred_index d), set (map gold_index d))
        = greedy_loop ug up cs (map (\<lambda>c. (ug ! gold_index c, up ! pred_index c)) d, set (map pred_index d), set (map gold_index d))"
      using False cond by (auto simp: c)
    then show ?thesis using False Cons.IH[OF rest, of d] by simp
  qed
qed

lemma candidate_pairs_set:
  "c \<in> set (candidate_pairs thr gold predicted) \<Longrightarrow>
     pred_index c < length predicted \<and> gold_index c < length gold \<and>
     domain (gold ! gold_index c) = domain (predicted ! pred_index c) \<and>
     weight c = similarity (evidence_span (gold ! gold_index c)) (evidence_span (predicted ! pred_index c)) \<and>
     weight c \<ge> thr"
  by (auto simp: candidate_pairs_def candidate_at_def pred_index_def gold_index_def weight_def split: if_splits)

lemma unmatched_eq: "unmatched objs (set consumed) = never_consumed objs consumed"
  by (simp add: unmatched_def never_consumed_def enumerate_eq_map filter_map comp_def)

lemma unmatched_image: "unmatched objs (f ` set xs) = never_consumed objs (map f xs)"
  using unmatched_eq[of objs "map f xs"] by simp

lemma set_sort_reverse: "set (sort_reverse pm) = set pm"
  by (simp add: sort_reverse_def)

lemma match_objects_eq:
  "match_objects thr gold predicted =
     Some (matcher_result gold predicted (sort_reverse (candidate_pairs thr gold predicted)))"
proof -
  have "list_all (\<lambda>c. pred_index c < length predicted \<and> gold_index c < length gold)
          (sort_reverse (candidate_pairs thr gold predicted))"
    by (simp add: list_all_iff set_sort_reverse candidate_pairs_set)
  from greedy_eq[OF this, of "[]"] show ?thesis
    by (simp add: match_objects_def potential_matches_eq matcher_result_def Let_def unmatched_image)
qed

lemma commit_walk_append: "commit_walk d (xs @ ys) = commit_walk (commit_walk d xs) ys"
  by (induction xs arbitrary: d) auto

lemma commit_walk_prefix: "prefix d (commit_walk d cs)"
proof (induction cs arbitrary: d)
  case Nil
  then show ?case by simp
next
  case (Cons c cs)
  have "prefix d (commit_walk (d @ [c]) cs)"
    using Cons[of "d @ [c]"] by (metis append_prefixD)
  then show ?case using Cons[of d] by simp
qed

lemma commit_walk_length: "length d \<le> length (commit_walk d cs)"
  using commit_walk_prefix[of d cs] by (rule prefix_length_le)

lemma commit_walk_set: "set (commit_walk d cs) \<subseteq> set d \<union> set cs"
proof (induction cs arbitrary: d)
  case Nil
  then show ?case by simp
next
  case (Cons c cs)
  show ?case using Cons[of d] Cons[of "d @ [c]"] by auto
qed

lemma commit_walk_distinct_pred:
  "distinct (map pred_index d) \<Longrightarrow> distinct (map pred_index (commit_walk d cs))"
proof (induction cs arbitrary: d)
  case Nil
  then show ?case by simp
next
  case (Cons c cs)
  show ?case
  proof (cases "list_all (\<lambda>d. pred_index d \<noteq> pred_index c \<and> gold_index d \<noteq> gold_index c) d")
    case True
    then have "distinct (map pred_index (d @ [c]))"
      using Cons.prems by (auto simp: list_all_iff)
    from Cons.IH[OF this] True show ?thesis by simp
  next
    case False
    then show ?thesis using Cons.IH[OF Cons.prems] by simp
  qed
qed

lemma commit_walk_distinct_gold:
  "distinct (map gold_index d) \<Longrightarrow> distinct (map gold_index (commit_walk d cs))"
proof (induction cs arbitrary: d)
  case Nil
  then show ?case by simp
next
  case (Cons c cs)
  show ?case
  proof (cases "list_all (\<lambda>d. pred_index d \<noteq> pred_index c \<and> gold_index d \<noteq> gold_index c) d")
    case True
    then have "distinct (map gold_index (d @ [c]))"
      using Cons.prems by (auto simp: list_all_iff)
    from Cons.IH[OF this] True show ?thesis by simp
  next
    case False
    then show ?thesis using Cons.IH[OF Cons.prems] by simp
  qed
qed

lemma length_never_consumed:
  assumes "distinct consumed" and "\<forall>k \<in> set consumed. k < length objs"
  shows "length (never_consumed objs consumed) + length consumed = length objs"
proof -
  have "length (filter (\<lambda>k. k \<notin> set consumed) [0..<length objs])
        = card ({k. k \<notin> set consumed} \<inter> set [0..<length objs])"
    by (rule distinct_length_filter) simp
  also have "{k. k \<notin> set consumed} \<inter> set [0..<length objs] = {0..<length objs} - set consumed"
    by auto
  also have "card \<dots> = card {0..<length objs} - card (set consumed)"
    using assms(2) by (intro card_Diff_subset) auto
  also have "card (set consumed) = length consumed"
    using assms(1) by (rule distinct_card)
  finally have "length (never_consumed objs consumed) = length objs - length consumed"
    by (simp add: never_consumed_def)
  moreover have "length consumed \<le> length objs"
  proof -
    have "card (set consumed) \<le> card {0..<length objs}"
      using assms(2) by (intro card_mono) auto
    then show ?thesis using distinct_card[OF assms(1)] by simp
  qed
  ultimately show ?thesis by simp
qed

lemma matcher_result_counts:
  assumes "\<forall>c \<in> set cs. pred_index c < length predicted \<and> gold_index c < length gold"
    and "matcher_result gold predicted cs = (pairs, fps, fns)"
  shows "length pairs + length fns = length gold \<and> length pairs + length fps = length predicted"
proof -
  let ?m = "commit_walk [] cs"
  have sub: "set ?m \<subseteq> set cs" using commit_walk_set[of "[]" cs] by simp
  have dp: "distinct (map pred_index ?m)" by (rule commit_walk_distinct_pred) simp
  have dg: "distinct (map gold_index ?m)" by (rule commit_walk_distinct_gold) simp
  have "length (never_consumed predicted (map pred_index ?m)) + length (map pred_index ?m) = length predicted"
    using assms(1) sub by (intro length_never_consumed dp) auto
  moreover have "length (never_consumed gold (map gold_index ?m)) + length (map gold_index ?m) = length gold"
    using assms(1) sub by (intro length_never_consumed dg) auto
  ultimately show ?thesis using assms(2) by (auto simp: matcher_result_def Let_def)
qed

lemma candidates_in_range:
  "\<forall>c \<in> set (sort_reverse (candidate_pairs thr gold predicted)).
      pred_index c < length predicted \<and> gold_index c < length gold"
  by (simp add: set_sort_reverse candidate_pairs_set)

lemma match_counts:
  "\<exists>pairs fps fns. match_objects thr gold predicted = Some (pairs, fps, fns) \<and>
     length pairs + length fns = length gold \<and> length pairs + length fps = length predicted"
proof -
  obtain pairs fps fns where r: "matcher_result gold predicted (sort_reverse (candidate_pairs thr gold predicted)) = (pairs, fps, fns)"
    by (metis prod_cases3)
  from matcher_result_counts[OF candidates_in_range r] show ?thesis
    by (simp add: match_objects_eq r)
qed

section \<open>The document scorer\<close>

lemma score_journal_eq:
  assumes "match_objects thr gold predicted = Some (pairs, fps, fns)"
  shows "score_journal thr journal_text gold predicted =
    Some \<lparr>tp = int (length pairs), fp = int (length fps), fn = int (length fns),
          precision = ratio_or_zero (of_nat (length pairs)) (of_nat (length pairs + length fps)),
          recall = ratio_or_zero (of_nat (length pairs)) (of_nat (length pairs + length fns)),
          f1 = ratio_or_zero
                 (2 * ratio_or_zero (of_nat (length pairs)) (of_nat (length pairs + length fps)) *
                      ratio_or_zero (of_nat (length pairs)) (of_nat (length pairs + length fns)))
                 (ratio_or_zero (of_nat (length pairs)) (of_nat (length pairs + length fps)) +
                  ratio_or_zero (of_nat (length pairs)) (of_nat (length pairs + length fns))),
          polarity_accuracy = ratio_or_zero (of_int (correct_polarity_count pairs)) (of_nat (length pairs)),
          bucket_accuracy = ratio_or_zero (of_int (correct_bucket_count pairs)) (of_nat (length pairs)),
          evidence_coverage_rate =
            ratio_or_zero (of_int (valid_evidence_spans journal_text predicted)) (of_nat (length predicted)),
          matched_pairs = map (\<lambda>(g, p). (to_dict g, to_dict p)) pairs,
          false_positives = map to_dict fps,
          false_negatives = map to_dict fns\<rparr>"
  by (simp add: score_journal_def assms Let_def truediv_def ratio_or_zero_def)

section \<open>The corpus aggregator\<close>

lemma overall_scores_eq:
  "overall_scores scores =
     Some \<lparr>overall_precision =
             ratio_or_zero (of_int (sum_list (map tp scores)))
               (of_int (sum_list (map tp scores) + sum_list (map fp scores))),
           overall_recall =
             ratio_or_zero (of_int (sum_list (map tp scores)))
               (of_int (sum_list (map tp scores) + sum_list (map fn scores))),
           overall_f1 =
             ratio_or_zero
               (2 * ratio_or_zero (of_int (sum_list (map tp scores)))
                      (of_int (sum_list (map tp scores) + sum_list (map fp scores))) *
                    ratio_or_zero (of_int (sum_list (map tp scores)))
                      (of_int (sum_list (map tp scores) + sum_list (map fn scores))))
               (ratio_or_zero (of_int (sum_list (map tp scores)))
                      (of_int (sum_list (map tp scores) + sum_list (map fp scores))) +
                ratio_or_zero (of_int (sum_list (map tp scores)))
                      (of_int (sum_list (map tp scores) + sum_list (map fn scores)))),
           overall_polarity_accuracy =
             ratio_or_zero (sum_list (map (\<lambda>s. polarity_accuracy s * of_int (tp s)) scores))
               (of_int (sum_list (map tp scores))),
           overall_bucket_accuracy =
             ratio_or_zero (sum_list (map (\<lambda>s. bucket_accuracy s * of_int (tp s)) scores))
               (of_int (sum_list (map tp scores))),
           overall_evidence_coverage_rate =
             ratio_or_zero (sum_list (map (\<lambda>s. evidence_coverage_rate s * of_int (tp s + fp s)) scores))
               (of_int (sum_list (map (\<lambda>s. tp s + fp s) scores)))\<rparr>"
  by (simp add: overall_scores_def Let_def truediv_def ratio_or_zero_def)

text \<open>
  Claim C1. \<^verbatim>\<open>overall_scores\<close> never raises, and its polarity accuracy is the sum over
  the documents of \<open>polarity_accuracy * tp\<close> divided by the total \<open>tp\<close>, and 0 when the
  total is not positive; its bucket accuracy is computed by the same formula. For two
  documents with \<open>tp = 1\<close>, accuracy 1 and \<open>tp = 3\<close>, accuracy 0 the result is 1/4, which
  is not the mean of the two accuracies.
\<close>

theorem overall_accuracy_count_weighted:
  "(\<exists>r. overall_scores scores = Some r \<and>
      overall_polarity_accuracy r =
        (if sum_list (map tp scores) > 0
         then sum_list (map (\<lambda>s. polarity_accuracy s * of_int (tp s)) scores) /
              of_int (sum_list (map tp scores))
         else 0) \<and>
      overall_bucket_accuracy r =
        (if sum_list (map tp scores) > 0
         then sum_list (map (\<lambda>s. bucket_accuracy s * of_int (tp s)) scores) /
              of_int (sum_list (map tp scores))
         else 0)) \<and>
   (tp s1 = 1 \<and> polarity_accuracy s1 = 1 \<and> tp s2 = 3 \<and> polarity_accuracy s2 = 0 \<longrightarrow>
      (\<exists>r. overall_scores [s1, s2] = Some r \<and> overall_polarity_accuracy r = 1 / 4 \<and>
           overall_polarity_accuracy r \<noteq> (polarity_accuracy s1 + polarity_accuracy s2) / 2))"
  by (simp add: overall_scores_eq ratio_or_zero_def)

theorem overall_accuracy_count_weighted_witness:
  "tp doc_a = 1 \<and> polarity_accuracy doc_a = 1 \<and> tp doc_b = 3 \<and> polarity_accuracy doc_b = 0 \<and>
   overall_scores [doc_a, doc_b] =
     Some \<lparr>overall_precision = 1, overall_recall = 1, overall_f1 = 1,
           overall_polarity_accuracy = 1 / 4, overall_bucket_accuracy = 1 / 4,
           overall_evidence_coverage_rate = 1\<rparr> \<and>
   (polarity_accuracy doc_a + polarity_accuracy doc_b) / 2 = 1 / 2"
  using overall_accuracy_count_weighted [of "[doc_a, doc_b]" doc_a doc_b]
  by (simp add: doc_a_def doc_b_def overall_scores_def truediv_def)

section \<open>Properties of the matcher and of the similarity\<close>

text \<open>
  Claim C2. For every gold list, predicted list and threshold the matcher returns, and its
  counts partition the inputs: the number of matched pairs plus the number of unmatched
  gold objects is the number of gold objects, and the number of matched pairs plus the
  number of unmatched predicted objects is the number of predicted objects.
  \<^verbatim>\<open>score_journal\<close> reports these counts as \<open>tp\<close>, \<open>fp\<close> and \<open>fn\<close>.
\<close>

theorem counts_partition_inputs:
  "\<exists>pairs fps fns s.
     match_objects thr gold predicted = Some (pairs, fps, fns) \<and>
     length pairs + length fns = length gold \<and>
     length pairs + length fps = length predicted \<and>
     score_journal thr journal_text gold predicted = Some s \<and>
     tp s = int (length pairs) \<and> fp s = int (length fps) \<and> fn s = int (length fns) \<and>
     tp s + fn s = int (length gold) \<and>
     tp s + fp s = int (length predicted)"
proof -
  obtain pairs fps fns where m: "match_objects thr gold predicted = Some (pairs, fps, fns)"
    and g: "length pairs + length fns = length gold"
    and p: "length pairs + length fps = length predicted"
    using match_counts[of thr gold predicted] by blast
  have "int (length pairs) + int (length fns) = int (length gold)"
    using g by (simp flip: of_nat_add)
  moreover have "int (length pairs) + int (length fps) = int (length predicted)"
    using p by (simp flip: of_nat_add)
  ultimately show ?thesis
    using m g p score_journal_eq[OF m, of journal_text] by simp
qed

theorem counts_partition_inputs_witness:
  "match_objects (1 / 2) [gold_pain, gold_mood] [pred_pain] =
     Some ([(gold_pain, pred_pain)], [], [gold_mood]) \<and>
   (\<exists>s. score_journal (1 / 2) journal [gold_pain, gold_mood] [pred_pain] = Some s \<and>
        tp s = 1 \<and> fp s = 0 \<and> fn s = 1 \<and>
        tp s + fn s = int (length [gold_pain, gold_mood]) \<and>
        tp s + fp s = int (length [pred_pain]))"
proof -
  have "match_objects (1 / 2) [gold_pain, gold_mood] [pred_pain] =
     Some ([(gold_pain, pred_pain)], [], [gold_mood])"
    by code_simp
  then show ?thesis
    using counts_partition_inputs [of "1 / 2" "[gold_pain, gold_mood]" "[pred_pain]" journal]
    by auto
qed

text \<open>
  Claim C5. \<^verbatim>\<open>calculate_jaccard_similarity\<close> is symmetric; a text compared with itself
  gives 1, for every text and so for every non-empty one; and two empty texts give the
  value 1, not a division by zero.
\<close>

theorem jaccard_symmetric_reflexive:
  "calculate_jaccard_similarity a b = calculate_jaccard_similarity b a \<and>
   calculate_jaccard_similarity a a = Some 1 \<and>
   calculate_jaccard_similarity [] [] = Some 1"
proof -
  have "similarity a b = similarity b a"
    by (simp add: similarity_def Int_commute Un_commute conj_commute)
  moreover have "similarity c c = 1" for c
    by (simp add: similarity_def tokens_def)
  ultimately show ?thesis by (simp add: jaccard_is_similarity)
qed

theorem jaccard_symmetric_reflexive_witness:
  "calculate_jaccard_similarity ''sharp stomach pain'' ''Stomach  PAIN'' = Some (2 / 3) \<and>
   calculate_jaccard_similarity ''Stomach  PAIN'' ''sharp stomach pain'' = Some (2 / 3) \<and>
   calculate_jaccard_similarity ''Stomach  PAIN'' ''Stomach  PAIN'' = Some 1 \<and>
   calculate_jaccard_similarity '''' '''' = Some 1"
proof -
  have "calculate_jaccard_similarity ''sharp stomach pain'' ''Stomach  PAIN'' = Some (2 / 3)"
    by code_simp
  then show ?thesis
    using jaccard_symmetric_reflexive [of "''sharp stomach pain''" "''Stomach  PAIN''"]
      jaccard_symmetric_reflexive [of "''Stomach  PAIN''" "''Stomach  PAIN''"]
    by simp
qed

lemma matcher_result_pairs:
  assumes "matcher_result gold predicted cs = (pairs, fps, fns)"
    and "(g, p) \<in> set pairs"
  shows "\<exists>c \<in> set cs. g = gold ! gold_index c \<and> p = predicted ! pred_index c"
proof -
  have "set (commit_walk [] cs) \<subseteq> set cs" using commit_walk_set[of "[]" cs] by simp
  moreover obtain c where "c \<in> set (commit_walk [] cs)"
    and "(g, p) = (gold ! gold_index c, predicted ! pred_index c)"
    using assms by (auto simp: matcher_result_def Let_def)
  ultimately show ?thesis by auto
qed

text \<open>
  Claim C8. Matching is domain-gated: whatever the threshold, every matched pair is made of
  a gold object and a predicted object with equal domains.
\<close>

theorem matching_domain_gated:
  "\<exists>pairs fps fns.
     match_objects thr gold predicted = Some (pairs, fps, fns) \<and>
     (\<forall>(g, p) \<in> set pairs. g \<in> set gold \<and> p \<in> set predicted \<and> domain g = domain p)"
proof -
  let ?cs = "sort_reverse (candidate_pairs thr gold predicted)"
  obtain pairs fps fns where r: "matcher_result gold predicted ?cs = (pairs, fps, fns)"
    by (metis prod_cases3)
  have "g \<in> set gold \<and> p \<in> set predicted \<and> domain g = domain p" if mem: "(g, p) \<in> set pairs" for g p
  proof -
    obtain c where c: "c \<in> set (candidate_pairs thr gold predicted)"
      and gp: "g = gold ! gold_index c" "p = predicted ! pred_index c"
      using matcher_result_pairs[OF r mem] by (auto simp: set_sort_reverse)
    from candidate_pairs_set[OF c] gp show ?thesis by simp
  qed
  then show ?thesis by (auto simp: match_objects_eq r)
qed

theorem matching_domain_gated_witness:
  "calculate_jaccard_similarity (evidence_span gold_mood) (evidence_span pred_pain) = Some 1 \<and>
   domain gold_mood \<noteq> domain pred_pain \<and>
   match_objects 0 [gold_mood] [pred_pain] = Some ([], [pred_pain], [gold_mood])"
proof -
  have d: "domain gold_mood \<noteq> domain pred_pain"
    by (simp add: gold_mood_def pred_pain_def)
  have j: "calculate_jaccard_similarity (evidence_span gold_mood) (evidence_span pred_pain) = Some 1"
    by code_simp
  have m: "match_objects 0 [gold_mood] [pred_pain] = Some ([], [pred_pain], [gold_mood])"
    by code_simp
  show ?thesis
    using matching_domain_gated [of 0 "[gold_mood]" "[pred_pain]"] d j m by simp
qed

section \<open>Properties of the document scorer\<close>

lemma match_objects_empty: "match_objects thr [] [] = Some ([], [], [])"
  by (simp add: match_objects_eq matcher_result_def candidate_pairs_def sort_reverse_def
      never_consumed_def)

lemma score_journal_total:
  "\<exists>pairs fps fns.
     match_objects thr gold predicted = Some (pairs, fps, fns) \<and>
     score_journal thr journal_text gold predicted =
       Some \<lparr>tp = int (length pairs), fp = int (length fps), fn = int (length fns),
          precision = ratio_or_zero (of_nat (length pairs)) (of_nat (length pairs + length fps)),
          recall = ratio_or_zero (of_nat (length pairs)) (of_nat (length pairs + length fns)),
          f1 = ratio_or_zero
                 (2 * ratio_or_zero (of_nat (length pairs)) (of_nat (length pairs + length fps)) *
                      ratio_or_zero (of_nat (length pairs)) (of_nat (length pairs + length fns)))
                 (ratio_or_zero (of_nat (length pairs)) (of_nat (length pairs + length fps)) +
                  ratio_or_zero (of_nat (length pairs)) (of_nat (length pairs + length fns))),
          polarity_accuracy = ratio_or_zero (of_int (correct_polarity_count pairs)) (of_nat (length pairs)),
          bucket_accuracy = ratio_or_zero (of_int (correct_bucket_count pairs)) (of_nat (length pairs)),
          evidence_coverage_rate =
            ratio_or_zero (of_int (valid_evidence_spans journal_text predicted)) (of_nat (length predicted)),
          matched_pairs = map (\<lambda>(g, p). (to_dict g, to_dict p)) pairs,
          false_positives = map to_dict fps,
          false_negatives = map to_dict fns\<rparr>"
proof -
  obtain pairs fps fns where m: "match_objects thr gold predicted = Some (pairs, fps, fns)"
    using match_counts[of thr gold predicted] by blast
  show ?thesis using m score_journal_eq[OF m, of journal_text] by blast
qed

lemma valid_evidence_spans_substring:
  "valid_evidence_spans journal_text predicted =
     int (length (filter (\<lambda>p. \<exists>pre suf. journal_text = pre @ evidence_span p @ suf) predicted))"
  by (simp add: valid_evidence_spans_def str_contains_iff)

lemma valid_evidence_spans_append:
  "valid_evidence_spans journal_text (ps @ p # qs) =
     valid_evidence_spans journal_text (ps @ qs) +
     (if str_contains journal_text (evidence_span p) then 1 else 0)"
  by (simp add: valid_evidence_spans_def)

text \<open>
  Claim C6. The evidence coverage rate is computed over all predicted objects: it is the
  number of predicted objects whose span occurs in the document text as a contiguous
  substring, over the number of predicted objects, and 0 when there is none; the gold
  objects, the threshold and the matching do not enter it. A predicted object whose span
  is not a substring of the text adds nothing to the numerator.
\<close>

theorem coverage_over_all_predicted:
  "(\<exists>s. score_journal thr journal_text gold predicted = Some s \<and>
        evidence_coverage_rate s =
          (if predicted = [] then 0
           else of_nat (length (filter
                  (\<lambda>p. \<exists>pre suf. journal_text = pre @ evidence_span p @ suf) predicted)) /
                of_nat (length predicted))) \<and>
   ((\<nexists>pre suf. journal_text = pre @ evidence_span p @ suf) \<longrightarrow>
      valid_evidence_spans journal_text (ps @ p # qs) = valid_evidence_spans journal_text (ps @ qs))"
proof -
  obtain s where s: "score_journal thr journal_text gold predicted = Some s"
    and c: "evidence_coverage_rate s =
      ratio_or_zero (of_int (valid_evidence_spans journal_text predicted)) (of_nat (length predicted))"
    using score_journal_total[of thr gold predicted journal_text] by auto
  have "evidence_coverage_rate s =
          (if predicted = [] then 0
           else of_nat (length (filter
                  (\<lambda>p. \<exists>pre suf. journal_text = pre @ evidence_span p @ suf) predicted)) /
                of_nat (length predicted))"
    unfolding c valid_evidence_spans_substring by (simp add: ratio_or_zero_def)
  with s show ?thesis
    by (simp add: valid_evidence_spans_append str_contains_iff)
qed

theorem coverage_over_all_predicted_witness:
  "\<exists>s. score_journal (1 / 2) journal [gold_pain, gold_head] [pred_pain, pred_head] = Some s \<and>
       tp s = 2 \<and> fp s = 0 \<and> evidence_coverage_rate s = 1 / 2 \<and>
       \<not> str_contains journal (evidence_span pred_head) \<and>
       valid_evidence_spans journal ([pred_pain] @ pred_head # []) = 1 \<and>
       valid_evidence_spans journal ([pred_pain] @ []) = 1"
proof -
  have a: "map_option (\<lambda>s. (tp s, fp s, evidence_coverage_rate s))
      (score_journal (1 / 2) journal [gold_pain, gold_head] [pred_pain, pred_head]) =
      Some (2, 0, 1 / 2)"
    by code_simp
  have b: "\<not> str_contains journal (evidence_span pred_head)"
    by code_simp
  have c: "valid_evidence_spans journal ([pred_pain] @ []) = 1"
    by code_simp
  show ?thesis
    using coverage_over_all_predicted [of "1 / 2" journal "[gold_pain, gold_head]"
        "[pred_pain, pred_head]" pred_head "[pred_pain]" "[]"] a b c
    by (auto simp: str_contains_iff)
qed

text \<open>
  Claim C7. \<^verbatim>\<open>score_journal\<close> never raises, and each ratio with a zero denominator is 0:
  precision when \<open>tp + fp = 0\<close>, recall when \<open>tp + fn = 0\<close>, F1 when precision plus recall is
  0, polarity and bucket accuracy when \<open>tp = 0\<close>, coverage when there is no prediction. With
  no gold and no predicted object every count and every ratio is 0.
\<close>

theorem degenerate_input_defined:
  "(\<exists>s. score_journal thr journal_text gold predicted = Some s \<and>
        (tp s + fp s = 0 \<longrightarrow> precision s = 0) \<and>
        (tp s + fn s = 0 \<longrightarrow> recall s = 0) \<and>
        (precision s + recall s = 0 \<longrightarrow> f1 s = 0) \<and>
        (tp s = 0 \<longrightarrow> polarity_accuracy s = 0 \<and> bucket_accuracy s = 0) \<and>
        (predicted = [] \<longrightarrow> evidence_coverage_rate s = 0)) \<and>
   score_journal thr journal_text [] [] =
     Some \<lparr>tp = 0, fp = 0, fn = 0, precision = 0, recall = 0, f1 = 0,
           polarity_accuracy = 0, bucket_accuracy = 0, evidence_coverage_rate = 0,
           matched_pairs = [], false_positives = [], false_negatives = []\<rparr>"
proof -
  obtain pairs fps fns where s: "score_journal thr journal_text gold predicted =
       Some \<lparr>tp = int (length pairs), fp = int (length fps), fn = int (length fns),
          precision = ratio_or_zero (of_nat (length pairs)) (of_nat (length pairs + length fps)),
          recall = ratio_or_zero (of_nat (length pairs)) (of_nat (length pairs + length fns)),
          f1 = ratio_or_zero
                 (2 * ratio_or_zero (of_nat (length pairs)) (of_nat (length pairs + length fps)) *
                      ratio_or_zero (of_nat (length pairs)) (of_nat (length pairs + length fns)))
                 (ratio_or_zero (of_nat (length pairs)) (of_nat (length pairs + length fps)) +
                  ratio_or_zero (of_nat (length pairs)) (of_nat (length pairs + length fns))),
          polarity_accuracy = ratio_or_zero (of_int (correct_polarity_count pairs)) (of_nat (length pairs)),
          bucket_accuracy = ratio_or_zero (of_int (correct_bucket_count pairs)) (of_nat (length pairs)),
          evidence_coverage_rate =
            ratio_or_zero (of_int (valid_evidence_spans journal_text predicted)) (of_nat (length predicted)),
          matched_pairs = map (\<lambda>(g, p). (to_dict g, to_dict p)) pairs,
          false_positives = map to_dict fps,
          false_negatives = map to_dict fns\<rparr>"
    using score_journal_total[of thr gold predicted journal_text] by blast
  have r0: "ratio_or_zero a 0 = 0" for a by (simp add: ratio_or_zero_def)
  have f: "a + b = 0 \<Longrightarrow> ratio_or_zero c (a + b) = 0" for a b c :: rat
    by (simp add: ratio_or_zero_def)
  have g: "int m + int n = 0 \<Longrightarrow> ratio_or_zero c (rat_of_nat (m + n)) = 0" for m n c
  proof -
    assume "int m + int n = 0"
    then have "m + n = 0" by linarith
    then show ?thesis by (simp add: ratio_or_zero_def)
  qed
  have first: "\<exists>s. score_journal thr journal_text gold predicted = Some s \<and>
        (tp s + fp s = 0 \<longrightarrow> precision s = 0) \<and>
        (tp s + fn s = 0 \<longrightarrow> recall s = 0) \<and>
        (precision s + recall s = 0 \<longrightarrow> f1 s = 0) \<and>
        (tp s = 0 \<longrightarrow> polarity_accuracy s = 0 \<and> bucket_accuracy s = 0) \<and>
        (predicted = [] \<longrightarrow> evidence_coverage_rate s = 0)"
    unfolding s by (auto simp: r0 f g simp del: of_nat_add)
  have second: "score_journal thr journal_text [] [] =
     Some \<lparr>tp = 0, fp = 0, fn = 0, precision = 0, recall = 0, f1 = 0,
           polarity_accuracy = 0, bucket_accuracy = 0, evidence_coverage_rate = 0,
           matched_pairs = [], false_positives = [], false_negatives = []\<rparr>"
    by (simp add: score_journal_eq[OF match_objects_empty] r0 correct_polarity_count_def
        correct_bucket_count_def valid_evidence_spans_def)
  from first second show ?thesis by (rule conjI)
qed

theorem degenerate_input_defined_witness:
  "score_journal (1 / 2) journal [] [pred_pain] =
     Some \<lparr>tp = 0, fp = 1, fn = 0, precision = 0, recall = 0, f1 = 0,
           polarity_accuracy = 0, bucket_accuracy = 0, evidence_coverage_rate = 1,
           matched_pairs = [], false_positives = [to_dict pred_pain], false_negatives = []\<rparr> \<and>
   score_journal (1 / 2) journal [gold_pain] [] =
     Some \<lparr>tp = 0, fp = 0, fn = 1, precision = 0, recall = 0, f1 = 0,
           polarity_accuracy = 0, bucket_accuracy = 0, evidence_coverage_rate = 0,
           matched_pairs = [], false_positives = [], false_negatives = [to_dict gold_pain]\<rparr> \<and>
   score_journal (1 / 2) journal [] [] =
     Some \<lparr>tp = 0, fp = 0, fn = 0, precision = 0, recall = 0, f1 = 0,
           polarity_accuracy = 0, bucket_accuracy = 0, evidence_coverage_rate = 0,
           matched_pairs = [], false_positives = [], false_negatives = []\<rparr>"
proof -
  have a: "score_journal (1 / 2) journal [] [pred_pain] =
     Some \<lparr>tp = 0, fp = 1, fn = 0, precision = 0, recall = 0, f1 = 0,
           polarity_accuracy = 0, bucket_accuracy = 0, evidence_coverage_rate = 1,
           matched_pairs = [], false_positives = [to_dict pred_pain], false_negatives = []\<rparr>"
    by code_simp
  have b: "score_journal (1 / 2) journal [gold_pain] [] =
     Some \<lparr>tp = 0, fp = 0, fn = 1, precision = 0, recall = 0, f1 = 0,
           polarity_accuracy = 0, bucket_accuracy = 0, evidence_coverage_rate = 0,
           matched_pairs = [], false_positives = [], false_negatives = [to_dict gold_pain]\<rparr>"
    by code_simp
  show ?thesis
    using degenerate_input_defined [of "1 / 2" journal "[]" "[pred_pain]"] a b by simp
qed

text \<open>
  Claim C10. The empty string occurs in every text, so a predicted object with the empty
  span always adds one to the numerator of the evidence coverage rate, and a non-empty
  predicted list of such objects has rate 1.
\<close>

theorem empty_span_always_covered:
  "str_contains journal_text [] \<and>
   (evidence_span p = [] \<longrightarrow>
      valid_evidence_spans journal_text (ps @ p # qs) =
        valid_evidence_spans journal_text (ps @ qs) + 1) \<and>
   (predicted \<noteq> [] \<and> (\<forall>q \<in> set predicted. evidence_span q = []) \<longrightarrow>
      (\<exists>s. score_journal thr journal_text gold predicted = Some s \<and>
           evidence_coverage_rate s = 1))"
proof -
  have e: "str_contains t []" for t by (cases t) simp_all
  have "valid_evidence_spans journal_text predicted = int (length predicted)"
    if "\<forall>q \<in> set predicted. evidence_span q = []"
    using that by (simp add: valid_evidence_spans_def e)
  moreover obtain s where s: "score_journal thr journal_text gold predicted = Some s"
    and c: "evidence_coverage_rate s =
      ratio_or_zero (of_int (valid_evidence_spans journal_text predicted)) (of_nat (length predicted))"
    using score_journal_total[of thr gold predicted journal_text] by auto
  ultimately have "predicted \<noteq> [] \<and> (\<forall>q \<in> set predicted. evidence_span q = []) \<longrightarrow>
      (\<exists>s. score_journal thr journal_text gold predicted = Some s \<and> evidence_coverage_rate s = 1)"
    by (auto simp: ratio_or_zero_def)
  then show ?thesis by (simp add: e valid_evidence_spans_append)
qed

theorem empty_span_always_covered_witness:
  "(\<exists>s. score_journal (1 / 2) journal [gold_pain] [pred_blank, pred_blank] = Some s \<and>
        tp s = 0 \<and> fp s = 2 \<and> evidence_coverage_rate s = 1) \<and>
   (\<exists>s. score_journal (1 / 2) '''' [] [pred_blank] = Some s \<and> evidence_coverage_rate s = 1) \<and>
   valid_evidence_spans journal ([pred_head] @ pred_blank # []) = 1 \<and>
   valid_evidence_spans journal ([pred_head] @ []) = 0"
proof -
  have a: "map_option (\<lambda>s. (tp s, fp s))
      (score_journal (1 / 2) journal [gold_pain] [pred_blank, pred_blank]) = Some (0, 2)"
    by code_simp
  have b: "evidence_span pred_blank = []" by (simp add: pred_blank_def)
  have c: "valid_evidence_spans journal ([pred_head] @ []) = 0" by code_simp
  show ?thesis
    using empty_span_always_covered [of journal pred_blank "[pred_head]" "[]"
        "[pred_blank, pred_blank]" "1 / 2" "[gold_pain]"]
      empty_span_always_covered [of "''''" pred_blank "[]" "[]" "[pred_blank]" "1 / 2" "[]"]
      a b c
    by auto
qed

section \<open>The threshold and the greedy order\<close>

lemma candidate_at_filter:
  "t1 \<le> t2 \<Longrightarrow>
   candidate_at t2 gold predicted i j = filter (\<lambda>c. weight c \<ge> t2) (candidate_at t1 gold predicted i j)"
  by (simp add: candidate_at_def weight_def)

lemma candidate_pairs_filter:
  assumes "t1 \<le> t2"
  shows "candidate_pairs t2 gold predicted =
         filter (\<lambda>c. weight c \<ge> t2) (candidate_pairs t1 gold predicted)"
  by (simp add: candidate_pairs_def filter_concat comp_def candidate_at_filter[OF assms, symmetric])

lemma sort_reverse_filter: "sort_reverse (filter P pm) = filter P (sort_reverse pm)"
  by (simp add: sort_reverse_def filter_sort)

lemma sort_reverse_descending: "sorted_wrt (\<lambda>a b. weight a \<ge> weight b) (sort_reverse pm)"
proof -
  have "sorted (map (\<lambda>x. - fst x) (sort_reverse pm))"
    by (simp add: sort_reverse_def)
  then show ?thesis
    by (simp add: sorted_wrt_map weight_def sorted_wrt_iff_nth_less)
qed

lemma filter_descending_takeWhile:
  "sorted_wrt (\<lambda>a b. weight a \<ge> weight b) cs \<Longrightarrow>
   filter (\<lambda>c. weight c \<ge> t) cs = takeWhile (\<lambda>c. weight c \<ge> t) cs"
proof (induction cs)
  case Nil
  then show ?case by simp
next
  case (Cons c cs)
  show ?case
  proof (cases "weight c \<ge> t")
    case True
    then show ?thesis using Cons by simp
  next
    case False
    have "\<forall>d \<in> set cs. \<not> weight d \<ge> t"
      using Cons.prems False by auto
    then have "filter (\<lambda>c. weight c \<ge> t) cs = []" by (simp add: filter_empty_conv)
    then show ?thesis using False by simp
  qed
qed

lemma commit_walk_takeWhile_prefix:
  "prefix (commit_walk d (takeWhile P cs)) (commit_walk d cs)"
proof -
  have "commit_walk d cs = commit_walk (commit_walk d (takeWhile P cs)) (dropWhile P cs)"
    using commit_walk_append[of d "takeWhile P cs" "dropWhile P cs"] by simp
  then show ?thesis using commit_walk_prefix by metis
qed

lemma matcher_result_threshold:
  assumes "t1 \<le> t2"
  shows "prefix (fst (matcher_result gold predicted (sort_reverse (candidate_pairs t2 gold predicted))))
                (fst (matcher_result gold predicted (sort_reverse (candidate_pairs t1 gold predicted))))"
proof -
  let ?s1 = "sort_reverse (candidate_pairs t1 gold predicted)"
  have "sort_reverse (candidate_pairs t2 gold predicted) = filter (\<lambda>c. weight c \<ge> t2) ?s1"
    by (simp add: candidate_pairs_filter[OF assms] sort_reverse_filter)
  also have "\<dots> = takeWhile (\<lambda>c. weight c \<ge> t2) ?s1"
    by (rule filter_descending_takeWhile[OF sort_reverse_descending])
  finally show ?thesis
    by (simp add: matcher_result_def Let_def map_mono_prefix commit_walk_takeWhile_prefix)
qed

text \<open>
  Claim C3. For fixed gold and predicted lists and thresholds \<open>t1 \<le> t2\<close>, the pairs
  matched with \<open>t2\<close> are an initial segment of the pairs matched with \<open>t1\<close>: raising
  the threshold removes matches and adds none, so \<open>tp\<close> does not increase.
\<close>

theorem threshold_monotone:
  assumes "t1 \<le> t2"
  shows "\<exists>pairs1 fps1 fns1 pairs2 fps2 fns2 s1 s2.
     match_objects t1 gold predicted = Some (pairs1, fps1, fns1) \<and>
     match_objects t2 gold predicted = Some (pairs2, fps2, fns2) \<and>
     prefix pairs2 pairs1 \<and> length pairs2 \<le> length pairs1 \<and>
     score_journal t1 journal_text gold predicted = Some s1 \<and>
     score_journal t2 journal_text gold predicted = Some s2 \<and>
     tp s2 \<le> tp s1"
proof -
  obtain pairs1 fps1 fns1 where m1: "match_objects t1 gold predicted = Some (pairs1, fps1, fns1)"
    using match_counts[of t1 gold predicted] by blast
  obtain pairs2 fps2 fns2 where m2: "match_objects t2 gold predicted = Some (pairs2, fps2, fns2)"
    using match_counts[of t2 gold predicted] by blast
  have p: "prefix pairs2 pairs1"
    using matcher_result_threshold[OF assms, of gold predicted] m1 m2
    by (simp add: match_objects_eq)
  then have l: "length pairs2 \<le> length pairs1" by (rule prefix_length_le)
  show ?thesis
    using m1 m2 p l score_journal_eq[OF m1, of journal_text] score_journal_eq[OF m2, of journal_text]
    by simp
qed

theorem threshold_monotone_witness:
  "(1 / 2 :: rat) \<le> 3 / 4 \<and>
   match_objects (1 / 2) [gold_pain, gold_head] [pred_head, pred_pain] =
     Some ([(gold_head, pred_head), (gold_pain, pred_pain)], [], []) \<and>
   match_objects (3 / 4) [gold_pain, gold_head] [pred_head, pred_pain] =
     Some ([(gold_head, pred_head)], [pred_pain], [gold_pain])"
proof -
  have h: "(1 / 2 :: rat) \<le> 3 / 4" by simp
  have a: "match_objects (1 / 2) [gold_pain, gold_head] [pred_head, pred_pain] =
     Some ([(gold_head, pred_head), (gold_pain, pred_pain)], [], [])"
    by code_simp
  have b: "match_objects (3 / 4) [gold_pain, gold_head] [pred_head, pred_pain] =
     Some ([(gold_head, pred_head)], [pred_pain], [gold_pain])"
    by code_simp
  show ?thesis
    using threshold_monotone [OF h, of "[gold_pain, gold_head]" "[pred_head, pred_pain]" journal] a b
    by simp
qed

section \<open>The matcher as the specified greedy algorithm\<close>

lemma sorted_wrt_concat_map:
  assumes "sorted_wrt (<) (ks :: nat list)"
    and "\<And>k. k \<in> set ks \<Longrightarrow> sorted_wrt R (f k)"
    and "\<And>k k' a b. k < k' \<Longrightarrow> a \<in> set (f k) \<Longrightarrow> b \<in> set (f k') \<Longrightarrow> R a b"
  shows "sorted_wrt R (concat (map f ks))"
  using assms(1,2)
proof (induction ks)
  case Nil
  then show ?case by simp
next
  case (Cons k ks)
  have "R a b" if ma: "a \<in> set (f k)" and mb: "b \<in> set (concat (map f ks))" for a b
  proof -
    obtain k' where k': "k' \<in> set ks" "b \<in> set (f k')" using mb by auto
    have "k < k'" using Cons.prems(1) k'(1) by simp
    then show ?thesis using assms(3) ma k'(2) by blast
  qed
  then show ?case using Cons by (simp add: sorted_wrt_append)
qed

lemma candidate_at_index:
  "c \<in> set (candidate_at thr gold predicted i j) \<Longrightarrow> gold_index c = i \<and> pred_index c = j"
  by (auto simp: candidate_at_def gold_index_def pred_index_def split: if_splits)

lemma candidate_at_sorted: "sorted_wrt R (candidate_at thr gold predicted i j)"
  by (simp add: candidate_at_def)

lemma candidate_pairs_generation_order:
  "sorted_wrt generated_before (candidate_pairs thr gold predicted)"
  unfolding candidate_pairs_def
proof (rule sorted_wrt_concat_map)
  show "sorted_wrt (<) [0..<length gold]" by (simp add: sorted_wrt_upt)
next
  fix i
  show "sorted_wrt generated_before
          (concat (map (candidate_at thr gold predicted i) [0..<length predicted]))"
  proof (rule sorted_wrt_concat_map)
    show "sorted_wrt (<) [0..<length predicted]" by (simp add: sorted_wrt_upt)
  next
    fix j show "sorted_wrt generated_before (candidate_at thr gold predicted i j)"
      by (rule candidate_at_sorted)
  next
    fix j j' a b
    assume "j < j'" "a \<in> set (candidate_at thr gold predicted i j)"
      "b \<in> set (candidate_at thr gold predicted i j')"
    then show "generated_before a b"
      using candidate_at_index[of a thr gold predicted i j]
        candidate_at_index[of b thr gold predicted i j']
      by (simp add: generated_before_def)
  qed
next
  fix i i' a b
  assume "i < i'"
    and a: "a \<in> set (concat (map (candidate_at thr gold predicted i) [0..<length predicted]))"
    and b: "b \<in> set (concat (map (candidate_at thr gold predicted i') [0..<length predicted]))"
  have "gold_index a = i" using a by (auto dest: candidate_at_index)
  moreover have "gold_index b = i'" using b by (auto dest: candidate_at_index)
  ultimately show "generated_before a b" using \<open>i < i'\<close> by (simp add: generated_before_def)
qed

lemma sort_reverse_stable:
  "filter (\<lambda>c. weight c = w) (sort_reverse pm) = filter (\<lambda>c. weight c = w) pm"
proof -
  have "filter (\<lambda>c. - fst c = - w) (sort_key (\<lambda>x. - fst x) pm) = filter (\<lambda>c. - fst c = - w) pm"
    by (rule sort_key_stable)
  then show ?thesis by (simp add: sort_reverse_def weight_def)
qed

lemma commit_walk_snoc:
  "commit_walk [] (cs @ [c]) =
     (if list_all (\<lambda>d. pred_index d \<noteq> pred_index c \<and> gold_index d \<noteq> gold_index c)
           (commit_walk [] cs)
      then commit_walk [] cs @ [c] else commit_walk [] cs)"
  by (simp add: commit_walk_append)

text \<open>
  Claim C4. The matcher is the specified greedy algorithm. The two loops produce the
  candidates that pass the domain and threshold gates, in generation order (gold index
  outer, predicted index inner). The sort puts them in descending order of weight, keeps
  every candidate, and keeps candidates of equal weight in their original order, so ties
  stand in generation order. The walk commits a candidate exactly when no candidate
  committed before it has its gold index or its predicted index. The result of
  \<^verbatim>\<open>_match_objects\<close> is the specification's Matcher on the sorted candidates, a
  function of the inputs.
\<close>

theorem matcher_is_specified_greedy:
  "potential_matches_outer thr (enumerate 0 gold) (enumerate 0 predicted) [] =
     Some (candidate_pairs thr gold predicted) \<and>
   sorted_wrt generated_before (candidate_pairs thr gold predicted) \<and>
   sorted_wrt (\<lambda>a b. weight a \<ge> weight b) (sort_reverse pm) \<and>
   mset (sort_reverse pm) = mset pm \<and>
   filter (\<lambda>c. weight c = w) (sort_reverse pm) = filter (\<lambda>c. weight c = w) pm \<and>
   sorted_wrt generated_before
     (filter (\<lambda>c. weight c = w) (sort_reverse (candidate_pairs thr gold predicted))) \<and>
   commit_walk [] (cs @ [c]) =
     (if list_all (\<lambda>d. pred_index d \<noteq> pred_index c \<and> gold_index d \<noteq> gold_index c)
           (commit_walk [] cs)
      then commit_walk [] cs @ [c] else commit_walk [] cs) \<and>
   match_objects thr gold predicted =
     Some (matcher_result gold predicted (sort_reverse (candidate_pairs thr gold predicted)))"
proof -
  have "mset (sort_reverse pm) = mset pm" by (simp add: sort_reverse_def)
  moreover have "sorted_wrt generated_before
     (filter (\<lambda>c. weight c = w) (sort_reverse (candidate_pairs thr gold predicted)))"
    unfolding sort_reverse_stable
    by (rule sorted_wrt_filter[OF candidate_pairs_generation_order])
  ultimately show ?thesis
    using potential_matches_eq[of thr gold predicted]
      candidate_pairs_generation_order[of thr gold predicted]
      sort_reverse_descending[of pm] sort_reverse_stable[of w pm]
      commit_walk_snoc[of cs c] match_objects_eq[of thr gold predicted]
    by blast
qed

theorem matcher_is_specified_greedy_witness:
  "candidate_pairs (1 / 2) [gold_pain, gold_head, pred_head] [pred_pain, pred_head, gold_head] =
     [(2 / 3, 0, 0), (1, 1, 1), (1, 2, 1), (1, 1, 2), (1, 2, 2)] \<and>
   sort_reverse [(2 / 3, 0, 0), (1, 1, 1), (1, 2, 1), (1, 1, 2), (1, 2, 2)] =
     [(1, 1, 1), (1, 2, 1), (1, 1, 2), (1, 2, 2), (2 / 3, 0, 0)] \<and>
   commit_walk [] [(1, 1, 1), (1, 2, 1), (1, 1, 2), (1, 2, 2), (2 / 3, 0, 0)] =
     [(1, 1, 1), (1, 2, 2), (2 / 3, 0, 0)] \<and>
   match_objects (1 / 2) [gold_pain, gold_head, pred_head] [pred_pain, pred_head, gold_head] =
     Some ([(gold_head, pred_head), (pred_head, gold_head), (gold_pain, pred_pain)], [], [])"
proof -
  have a: "candidate_pairs (1 / 2) [gold_pain, gold_head, pred_head] [pred_pain, pred_head, gold_head] =
     [(2 / 3, 0, 0), (1, 1, 1), (1, 2, 1), (1, 1, 2), (1, 2, 2)]"
    by code_simp
  have b: "sort_reverse [(2 / 3, 0, 0), (1, 1, 1), (1, 2, 1), (1, 1, 2), (1, 2, 2)] =
     [(1, 1, 1), (1, 2, 1), (1, 1, 2), (1, 2, 2), (2 / 3, 0, 0)]"
    by code_simp
  have c: "commit_walk [] [(1, 1, 1), (1, 2, 1), (1, 1, 2), (1, 2, 2), (2 / 3, 0, 0)] =
     [(1, 1, 1), (1, 2, 2), (2 / 3, 0, 0)]"
    by code_simp
  have d: "matcher_result [gold_pain, gold_head, pred_head] [pred_pain, pred_head, gold_head]
      [(1, 1, 1), (1, 2, 1), (1, 1, 2), (1, 2, 2), (2 / 3, 0, 0)] =
      ([(gold_head, pred_head), (pred_head, gold_head), (gold_pain, pred_pain)], [], [])"
    by code_simp
  show ?thesis
    using matcher_is_specified_greedy [of "1 / 2" "[gold_pain, gold_head, pred_head]"
        "[pred_pain, pred_head, gold_head]"
        "[(2 / 3, 0, 0), (1, 1, 1), (1, 2, 1), (1, 1, 2), (1, 2, 2)]" 1
        "[(1, 1, 1), (1, 2, 1), (1, 1, 2), (1, 2, 2)]" "(2 / 3, 0, 0)"] a b c d
    by simp
qed

section \<open>The corpus evidence coverage rate\<close>

lemma coverage_times_count:
  "ratio_or_zero (of_int (valid_evidence_spans journal_text predicted))
     (of_nat (length predicted)) * of_nat (length predicted) =
   of_int (valid_evidence_spans journal_text predicted)"
  by (cases predicted) (simp_all add: ratio_or_zero_def valid_evidence_spans_def)

lemma score_journal_coverage:
  "\<exists>s. score_journal thr journal_text gold predicted = Some s \<and>
       tp s + fp s = int (length predicted) \<and>
       evidence_coverage_rate s * of_int (tp s + fp s) =
         of_int (valid_evidence_spans journal_text predicted)"
proof -
  obtain pairs fps fns where m: "match_objects thr gold predicted = Some (pairs, fps, fns)"
    and p: "length pairs + length fps = length predicted"
    using match_counts[of thr gold predicted] by blast
  obtain s where s: "score_journal thr journal_text gold predicted = Some s"
    and t: "tp s = int (length pairs)" and f: "fp s = int (length fps)"
    and c: "evidence_coverage_rate s =
      ratio_or_zero (of_int (valid_evidence_spans journal_text predicted)) (of_nat (length predicted))"
    using score_journal_eq[OF m, of journal_text] by simp
  have n: "tp s + fp s = int (length predicted)"
    unfolding t f using p by (simp flip: of_nat_add)
  have "evidence_coverage_rate s * of_int (tp s + fp s) =
         of_int (valid_evidence_spans journal_text predicted)"
    unfolding n c using coverage_times_count[of journal_text predicted] by simp
  with s n show ?thesis by blast
qed

lemma score_all_sums:
  "\<exists>scores. score_all thr docs = Some scores \<and>
     sum_list (map (\<lambda>s. tp s + fp s) scores) =
       sum_list (map (\<lambda>(journal_text, gold, predicted). int (length predicted)) docs) \<and>
     sum_list (map (\<lambda>s. evidence_coverage_rate s * of_int (tp s + fp s)) scores) =
       of_int (sum_list (map (\<lambda>(journal_text, gold, predicted).
                  valid_evidence_spans journal_text predicted) docs))"
proof (induction docs)
  case Nil
  then show ?case by simp
next
  case (Cons doc docs)
  obtain journal_text gold predicted where doc: "doc = (journal_text, gold, predicted)"
    by (cases doc) auto
  obtain s where s: "score_journal thr journal_text gold predicted = Some s"
    "tp s + fp s = int (length predicted)"
    "evidence_coverage_rate s * of_int (tp s + fp s) =
       of_int (valid_evidence_spans journal_text predicted)"
    using score_journal_coverage[of thr journal_text gold predicted] by blast
  obtain scores where scores: "score_all thr docs = Some scores"
    "sum_list (map (\<lambda>s. tp s + fp s) scores) =
       sum_list (map (\<lambda>(journal_text, gold, predicted). int (length predicted)) docs)"
    "sum_list (map (\<lambda>s. evidence_coverage_rate s * of_int (tp s + fp s)) scores) =
       of_int (sum_list (map (\<lambda>(journal_text, gold, predicted).
                  valid_evidence_spans journal_text predicted) docs))"
    using Cons.IH by blast
  have a: "score_all thr (doc # docs) = Some (s # scores)"
    by (simp add: doc s(1) scores(1))
  have b: "sum_list (map (\<lambda>s. tp s + fp s) (s # scores)) =
       sum_list (map (\<lambda>(journal_text, gold, predicted). int (length predicted)) (doc # docs))"
    unfolding doc using s(2) scores(2) by simp
  have c: "sum_list (map (\<lambda>s. evidence_coverage_rate s * of_int (tp s + fp s)) (s # scores)) =
       of_int (sum_list (map (\<lambda>(journal_text, gold, predicted).
                  valid_evidence_spans journal_text predicted) (doc # docs)))"
    unfolding doc list.map sum_list.Cons s(3) scores(3) by simp
  from a b c show ?case by blast
qed

lemma predicted_total_nonneg:
  "0 \<le> sum_list (map (\<lambda>(journal_text, gold, predicted). int (length predicted)) (docs :: document list))"
  by (induction docs) auto

text \<open>
  Claim C9, amended. In exact arithmetic, for the scores of any list of documents, the
  evidence coverage rate that \<^verbatim>\<open>overall_scores\<close> rebuilds from the per-document rates
  weighted by \<open>tp + fp\<close> equals the raw-count rate: the number of valid spans over the
  number of predicted objects, 0 when there is none. For each document \<open>tp + fp\<close> is the
  number of predicted objects, and in exact arithmetic the rate times \<open>tp + fp\<close> is the
  number of valid spans. Nothing is said here of the rounded results in double precision.
\<close>

theorem weighted_coverage_equals_raw_counts:
  "(\<exists>scores r. score_all thr docs = Some scores \<and> overall_scores scores = Some r \<and>
      overall_evidence_coverage_rate r = raw_evidence_coverage_rate docs) \<and>
   (\<exists>s. score_journal thr journal_text gold predicted = Some s \<and>
       tp s + fp s = int (length predicted) \<and>
       evidence_coverage_rate s * of_int (tp s + fp s) =
         of_int (valid_evidence_spans journal_text predicted))"
proof -
  obtain scores where scores: "score_all thr docs = Some scores"
    "sum_list (map (\<lambda>s. tp s + fp s) scores) =
       sum_list (map (\<lambda>(journal_text, gold, predicted). int (length predicted)) docs)"
    "sum_list (map (\<lambda>s. evidence_coverage_rate s * of_int (tp s + fp s)) scores) =
       of_int (sum_list (map (\<lambda>(journal_text, gold, predicted).
                  valid_evidence_spans journal_text predicted) docs))"
    using score_all_sums[of thr docs] by blast
  have "ratio_or_zero (sum_list (map (\<lambda>s. evidence_coverage_rate s * of_int (tp s + fp s)) scores))
               (of_int (sum_list (map (\<lambda>s. tp s + fp s) scores))) =
        raw_evidence_coverage_rate docs"
    unfolding scores(2,3) using predicted_total_nonneg[of docs]
    by (auto simp: ratio_or_zero_def raw_evidence_coverage_rate_def Let_def)
  then have "\<exists>r. overall_scores scores = Some r \<and>
      overall_evidence_coverage_rate r = raw_evidence_coverage_rate docs"
    by (simp add: overall_scores_eq)
  with scores(1) show ?thesis
    using score_journal_coverage[of thr journal_text gold predicted] by blast
qed

theorem weighted_coverage_equals_raw_counts_witness:
  "raw_evidence_coverage_rate
     [(journal, [gold_pain], [pred_pain, pred_head, pred_head]), (journal, [], [pred_pain])] = 1 / 2 \<and>
   (\<exists>scores r.
      score_all (1 / 2)
        [(journal, [gold_pain], [pred_pain, pred_head, pred_head]), (journal, [], [pred_pain])] =
        Some scores \<and>
      map evidence_coverage_rate scores = [1 / 3, 1] \<and>
      map (\<lambda>s. tp s + fp s) scores = [3, 1] \<and>
      overall_scores scores = Some r \<and>
      overall_evidence_coverage_rate r = 1 / 2)"
proof -
  have a: "raw_evidence_coverage_rate
     [(journal, [gold_pain], [pred_pain, pred_head, pred_head]), (journal, [], [pred_pain])] = 1 / 2"
    by code_simp
  have b: "map_option (map (\<lambda>s. (evidence_coverage_rate s, tp s + fp s)))
     (score_all (1 / 2)
        [(journal, [gold_pain], [pred_pain, pred_head, pred_head]), (journal, [], [pred_pain])]) =
     Some [(1 / 3, 3), (1, 1)]"
    by code_simp
  show ?thesis
    using weighted_coverage_equals_raw_counts [of "1 / 2"
        "[(journal, [gold_pain], [pred_pain, pred_head, pred_head]), (journal, [], [pred_pain])]"
        journal "[gold_pain]" "[pred_pain, pred_head, pred_head]"] a b
    by (auto simp: comp_def)
qed

section \<open>The evidence coverage rate in double precision\<close>

text \<open>\<open>floor_log2\<close> brackets its argument between two powers of two, and \<open>double\<close>
  is within half a unit in the last place of its argument.\<close>

lemma pow2_powi: "pow2 e = 2 powi e"
  by (simp add: pow2_def power_int_def field_simps)

lemma pow2_pos: "0 < pow2 e"
  by (simp add: pow2_powi)

lemma pow2_add: "pow2 (a + b) = pow2 a * pow2 b"
  by (simp add: pow2_powi power_int_add)

lemma bitlen_bracket:
  assumes "0 < (p::int)"
  shows "pow2 (bitlen p - 1) \<le> of_int p \<and> of_int p < pow2 (bitlen p)"
proof -
  have b: "2 ^ nat (bitlen p - 1) \<le> p \<and> p < 2 ^ nat (bitlen p)"
    using bitlen_bounds[OF assms] .
  have ge: "bitlen p \<ge> 1" using assms by (auto simp: bitlen_alt_def)
  have "(of_int (2 ^ nat (bitlen p - 1)) :: rat) \<le> of_int p" using b by (simp only: of_int_le_iff)
  moreover have "(of_int p :: rat) < of_int (2 ^ nat (bitlen p))" using b by (simp only: of_int_less_iff)
  ultimately show ?thesis using ge by (simp add: pow2_def)
qed

lemma floor_log2_bracket:
  assumes "0 < x"
  shows "pow2 (floor_log2 x) \<le> x \<and> x < pow2 (floor_log2 x + 1)"
proof -
  obtain p q where pq: "quotient_of x = (p, q)" by (cases "quotient_of x") auto
  have q: "0 < q" using pq by (rule quotient_of_denom_pos)
  have x: "x = of_int p / of_int q" using pq by (rule quotient_of_div)
  have p: "0 < p" using assms q x by (simp add: zero_less_divide_iff)
  let ?e = "bitlen p - bitlen q"
  note bp = bitlen_bracket[OF p] and bq = bitlen_bracket[OF q]
  have qpos: "(0::rat) < of_int q" using q by simp
  have up: "x < pow2 (?e + 1)"
  proof -
    have "of_int p < pow2 (bitlen p)" using bp by simp
    also have "pow2 (bitlen p) = pow2 (?e + 1) * pow2 (bitlen q - 1)"
      by (simp flip: pow2_add)
    also have "\<dots> \<le> pow2 (?e + 1) * of_int q"
      using bq pow2_pos[of "?e + 1"] by (simp add: mult_left_mono)
    finally show ?thesis using qpos by (simp add: x pos_divide_less_eq)
  qed
  have low: "pow2 (?e - 1) \<le> x"
  proof -
    have "pow2 (?e - 1) * of_int q \<le> pow2 (?e - 1) * pow2 (bitlen q)"
      using bq pow2_pos[of "?e - 1"] by (simp add: mult_left_mono less_imp_le)
    also have "\<dots> = pow2 (bitlen p - 1)" by (simp flip: pow2_add)
    also have "\<dots> \<le> of_int p" using bp by simp
    finally show ?thesis using qpos by (simp add: x pos_le_divide_eq)
  qed
  show ?thesis
  proof (cases "pow2 ?e \<le> x")
    case True
    then show ?thesis using up by (simp add: floor_log2_def pq)
  next
    case False
    then have "x < pow2 (?e - 1 + 1)" by simp
    with False low show ?thesis by (simp add: floor_log2_def pq)
  qed
qed

lemma round_half_even_nearest: "\<bar>of_int (round_half_even q) - q\<bar> \<le> 1 / 2"
proof -
  define d where "d = q - of_int \<lfloor>q\<rfloor>"
  have d: "0 \<le> d" "d < 1" unfolding d_def by linarith+
  have q: "q = of_int \<lfloor>q\<rfloor> + d" unfolding d_def by simp
  consider "d < 1 / 2" | "d > 1 / 2" | "d = 1 / 2" by linarith
  then show ?thesis
  proof cases
    case 1
    then have "round_half_even q = \<lfloor>q\<rfloor>"
      by (simp add: round_half_even_def Let_def d_def)
    then show ?thesis using d 1 q by linarith
  next
    case 2
    then have "round_half_even q = \<lfloor>q\<rfloor> + 1"
      by (simp add: round_half_even_def Let_def d_def)
    then have "of_int (round_half_even q) - q = 1 - d" using q by simp
    then show ?thesis using d 2 by linarith
  next
    case 3
    then have "round_half_even q = \<lfloor>q\<rfloor> \<or> round_half_even q = \<lfloor>q\<rfloor> + 1"
      by (simp add: round_half_even_def Let_def d_def)
    then have "of_int (round_half_even q) - q = - d \<or> of_int (round_half_even q) - q = 1 - d"
      using q by auto
    then show ?thesis using 3 by auto
  qed
qed

lemma double_nearest:
  assumes "x \<noteq> 0"
  shows "\<bar>double x - x\<bar> \<le> pow2 (floor_log2 \<bar>x\<bar> - 52) / 2"
proof -
  let ?u = "pow2 (floor_log2 \<bar>x\<bar> - 52)"
  let ?n = "round_half_even (\<bar>x\<bar> / ?u)"
  have u: "0 < ?u" by (rule pow2_pos)
  have "double x - x = sgn x * (of_int ?n * ?u - \<bar>x\<bar>)"
  proof (cases "0 < x")
    case True
    then show ?thesis by (simp add: double_def Let_def)
  next
    case False
    then have "x < 0" using assms by simp
    then show ?thesis by (simp add: double_def Let_def)
  qed
  then have "\<bar>double x - x\<bar> = \<bar>of_int ?n * ?u - \<bar>x\<bar>\<bar>"
    using assms by (simp add: abs_mult)
  also have "\<dots> = \<bar>of_int ?n - \<bar>x\<bar> / ?u\<bar> * ?u"
  proof -
    have "of_int ?n * ?u - \<bar>x\<bar> = (of_int ?n - \<bar>x\<bar> / ?u) * ?u"
      using u by (simp add: field_simps)
    then show ?thesis using u by (simp add: abs_mult)
  qed
  also have "\<dots> \<le> (1 / 2) * ?u"
    using round_half_even_nearest[of "\<bar>x\<bar> / ?u"] u by (intro mult_right_mono) simp_all
  finally show ?thesis by simp
qed

text \<open>\<open>double\<close> on some quotients, against the doubles CPython prints for them
  (\<^verbatim>\<open>(1/10).as_integer_ratio()\<close> and so on).\<close>

lemma double_reference_values:
  "double (1 / 10) = 3602879701896397 / 36028797018963968 \<and>
   double (1 / 3) = 6004799503160661 / 18014398509481984 \<and>
   double (2 / 3) = 6004799503160661 / 9007199254740992 \<and>
   double (15 / 22) = 6141272219141585 / 9007199254740992 \<and>
   double (15 / 23) = 2937130191763367 / 4503599627370496 \<and>
   double 9007199254740993 = 9007199254740992 \<and>
   double 9007199254740995 = 9007199254740996 \<and>
   double 22 = 22 \<and> double 1 = 1 \<and> double 0 = 0"
  by code_simp

text \<open>
  In double precision the weighted reconstruction and the raw-count computation differ. For
  the two documents of \<open>rounding_docs\<close> the stored rate is the double nearest to 15/22; times
  22 it is 14.999999999999998, not 15; the weighted overall rate is 0.6521739130434782 and
  the raw-count rate 15/23 is 0.6521739130434783.
\<close>

theorem weighted_coverage_differs_in_doubles:
  "coverage_entries (1 / 2) rounding_docs =
     Some [(6141272219141585 / 9007199254740992, 0, 22), (0, 0, 1)] \<and>
   double (6141272219141585 / 9007199254740992 * double 22) =
     8444249301319679 / 562949953421312 \<and>
   map_option overall_evidence_coverage_rate_double (coverage_entries (1 / 2) rounding_docs) =
     Some (5874260383526733 / 9007199254740992) \<and>
   raw_evidence_coverage_rate_double rounding_docs = 2937130191763367 / 4503599627370496 \<and>
   map_option overall_evidence_coverage_rate_double (coverage_entries (1 / 2) rounding_docs) \<noteq>
     Some (raw_evidence_coverage_rate_double rounding_docs)"
  by code_simp

end
